theory Spec2Isabelle
  imports Main
begin

section \<open>Python values used by the generator\<close>

text \<open>
  A Python \<open>str\<close> is a sequence of Unicode code points; it is modelled as the list of
  its code points, so that emptiness (truthiness), concatenation and equality are those of
  Python. \<open>ascii\<close> turns an ASCII literal into such a string.
\<close>

type_synonym pystr = "nat list"

definition ascii :: "string \<Rightarrow> pystr" where
  "ascii s = map of_char s"

text \<open>
  The exceptions that the script and the library calls it makes can raise. All of them
  are subclasses of \<open>Exception\<close>; only \<open>FileNotFoundError\<close> is caught by name.
  \<open>RequestError\<close> stands for whatever \<open>requests\<close> raises (connection failure,
  timeout, HTTP status, undecodable JSON), \<open>OSError\<close> for any other failure of \<open>open\<close>.
\<close>

datatype exn =
    ValueError | OverflowError | KeyError | TypeError | AttributeError
  | FileNotFoundError | OSError | RequestError

subsection \<open>datetime.date\<close>

text \<open>
  \<open>datetime.date\<close> with the algorithms of CPython's \<open>datetime\<close> module:
  the proleptic Gregorian ordinal (\<open>_ymd2ord\<close>, \<open>_ord2ymd\<close>), \<open>weekday()\<close>
  (Monday is 0), the checked constructor and the addition of a \<open>timedelta\<close> of whole days.
\<close>

datatype date = Date (year: int) (month: int) (day: int)

definition MINYEAR :: int where "MINYEAR = 1"
definition MAXYEAR :: int where "MAXYEAR = 9999"
definition MAXORDINAL :: int where "MAXORDINAL = 3652059"

definition DAYS_IN_MONTH :: "int list" where
  "DAYS_IN_MONTH = [-1, 31, 28, 31, 30, 31, 30, 31, 31, 30, 31, 30, 31]"

definition DAYS_BEFORE_MONTH :: "int list" where
  "DAYS_BEFORE_MONTH = [-1, 0, 31, 59, 90, 120, 151, 181, 212, 243, 273, 304, 334]"

definition is_leap :: "int \<Rightarrow> bool" where
  "is_leap y \<longleftrightarrow> y mod 4 = 0 \<and> (y mod 100 \<noteq> 0 \<or> y mod 400 = 0)"

definition days_before_year :: "int \<Rightarrow> int" where
  "days_before_year yr = (let y = yr - 1 in y * 365 + y div 4 - y div 100 + y div 400)"

definition days_in_month :: "int \<Rightarrow> int \<Rightarrow> int" where
  "days_in_month y m = (if m = 2 \<and> is_leap y then 29 else DAYS_IN_MONTH ! nat m)"

definition days_before_month :: "int \<Rightarrow> int \<Rightarrow> int" where
  "days_before_month y m = DAYS_BEFORE_MONTH ! nat m + (if m > 2 \<and> is_leap y then 1 else 0)"

definition ymd2ord :: "int \<Rightarrow> int \<Rightarrow> int \<Rightarrow> int" where
  "ymd2ord y m d = days_before_year y + days_before_month y m + d"

definition DI400Y :: int where "DI400Y = days_before_year 401"
definition DI100Y :: int where "DI100Y = days_before_year 101"
definition DI4Y :: int where "DI4Y = days_before_year 5"

definition ord2ymd :: "int \<Rightarrow> date" where
  "ord2ymd n0 =
    (let n = n0 - 1;
         n400 = n div DI400Y; n = n mod DI400Y;
         yr = n400 * 400 + 1;
         n100 = n div DI100Y; n = n mod DI100Y;
         n4 = n div DI4Y; n = n mod DI4Y;
         n1 = n div 365; n = n mod 365;
         yr = yr + (n100 * 100 + n4 * 4 + n1)
     in if n1 = 4 \<or> n100 = 4 then Date (yr - 1) 12 31
        else
          let leapyear = (n1 = 3 \<and> (n4 \<noteq> 24 \<or> n100 = 3));
              mo = (n + 50) div 32;
              preceding = DAYS_BEFORE_MONTH ! nat mo + (if mo > 2 \<and> leapyear then 1 else 0);
              (mo, preceding) =
                (if preceding > n
                 then (mo - 1,
                       preceding - (DAYS_IN_MONTH ! nat (mo - 1)
                                    + (if mo - 1 = 2 \<and> leapyear then 1 else 0)))
                 else (mo, preceding))
          in Date yr mo (n - preceding + 1))"

text \<open>\<open>date(y, m, d)\<close>: the constructor checks its fields and raises \<open>ValueError\<close>.\<close>

definition new_date :: "int \<Rightarrow> int \<Rightarrow> int \<Rightarrow> exn + date" where
  "new_date y m d =
    (if \<not> (MINYEAR \<le> y \<and> y \<le> MAXYEAR) then Inl ValueError
     else if \<not> (1 \<le> m \<and> m \<le> 12) then Inl ValueError
     else if \<not> (1 \<le> d \<and> d \<le> days_in_month y m) then Inl ValueError
     else Inr (Date y m d))"

text \<open>The dates that exist as Python objects are those the constructor accepts.\<close>

definition valid_date :: "date \<Rightarrow> bool" where
  "valid_date dt \<longleftrightarrow>
     MINYEAR \<le> year dt \<and> year dt \<le> MAXYEAR \<and> 1 \<le> month dt \<and> month dt \<le> 12
     \<and> 1 \<le> day dt \<and> day dt \<le> days_in_month (year dt) (month dt)"

definition toordinal :: "date \<Rightarrow> int" where
  "toordinal dt = ymd2ord (year dt) (month dt) (day dt)"

definition weekday :: "date \<Rightarrow> int" where
  "weekday dt = (toordinal dt + 6) mod 7"

text \<open>
  \<open>dt + timedelta(days=k)\<close>. Building the \<open>timedelta\<close> raises \<open>OverflowError\<close> when
  \<open>|k| > 999999999\<close>; the addition raises \<open>OverflowError\<close> when the resulting ordinal
  is outside \<open>1..MAXORDINAL\<close>.
\<close>

definition date_add_days :: "date \<Rightarrow> int \<Rightarrow> exn + date" where
  "date_add_days dt k =
    (if \<bar>k\<bar> > 999999999 then Inl OverflowError
     else let ordinal = toordinal dt + k
          in if 0 < ordinal \<and> ordinal \<le> MAXORDINAL then Inr (ord2ymd ordinal)
             else Inl OverflowError)"


text \<open>\<open>date.isoformat()\<close>: \<open>"%04d-%02d-%02d"\<close> of the three fields.\<close>

fun decimal :: "nat \<Rightarrow> pystr" where
  "decimal n = (if n < 10 then [48 + n] else decimal (n div 10) @ [48 + n mod 10])"

declare decimal.simps [simp del]

definition zero_pad :: "nat \<Rightarrow> int \<Rightarrow> pystr" where
  "zero_pad w n = (let ds = decimal (nat n) in replicate (w - length ds) 48 @ ds)"

definition isoformat :: "date \<Rightarrow> pystr" where
  "isoformat dt =
     zero_pad 4 (year dt) @ ascii ''-'' @ zero_pad 2 (month dt) @ ascii ''-'' @ zero_pad 2 (day dt)"

subsection \<open>datetime.datetime and the values of calendar properties\<close>

text \<open>
  A \<open>datetime\<close> is a date with a time of day (here in microseconds since midnight).
  A property set with \<open>Event.add\<close> holds either a \<open>date\<close> (rendered \<open>VALUE=DATE\<close>)
  or a \<open>datetime\<close>.
\<close>

record datetime =
  dt_date :: date
  dt_time :: nat

datatype ical_time = VDate date | VDatetime datetime

record event =
  summary :: pystr
  description :: pystr
  categories :: pystr
  dtstart :: ical_time
  dtend :: ical_time
  transp :: pystr
  dtstamp :: ical_time
  uid :: pystr

record calendar =
  prodid :: pystr
  version :: pystr
  x_wr_calname :: pystr
  x_wr_timezone :: pystr
  components :: "event list"

definition add_component :: "calendar \<Rightarrow> event \<Rightarrow> calendar" where
  "add_component c e = c\<lparr>components := components c @ [e]\<rparr>"

section \<open>The environment of a run\<close>

text \<open>
  Library functions the script calls and whose results it only passes on. They are
  parameters of the model:
  \<^item> \<open>strptime_ymd s\<close> is \<open>datetime.strptime(s, "%Y-%m-%d").date()\<close>, \<open>None\<close> when it
    raises \<open>ValueError\<close>;
  \<^item> \<open>int_of_str s\<close> is \<open>int(s)\<close> on a string, \<open>None\<close> when it raises \<open>ValueError\<close>;
  \<^item> \<open>str_strip s\<close> is \<open>s.strip()\<close>;
  \<^item> \<open>lunar_to_date y m d\<close> is \<open>lunardate.LunarDate(y, m, d).to_datetime().date()\<close>,
    \<open>None\<close> when it raises any exception.
\<close>

record pylib =
  strptime_ymd :: "pystr \<Rightarrow> date option"
  int_of_str :: "pystr \<Rightarrow> int option"
  str_strip :: "pystr \<Rightarrow> pystr"
  lunar_to_date :: "int \<Rightarrow> int \<Rightarrow> int \<Rightarrow> date option"

text \<open>
  One record of the \<open>days\<close> list of the holiday-cn feed. \<open>d.get(key)\<close> is \<open>None\<close> for a
  key that is absent or null.
\<close>

record holiday_day =
  hd_name :: "pystr option"
  hd_date :: "pystr option"
  hd_isOffDay :: "bool option"

text \<open>
  A row as \<open>csv.DictReader\<close> yields it: a dict from the header's column names to the
  row's fields, a field missing at the end of a short row being \<open>None\<close>.
\<close>

type_synonym csv_row = "pystr \<rightharpoonup> pystr option"

text \<open>
  What a run reads from outside: the clock (\<open>now k\<close> is the result of the \<open>k\<close>-th call
  of \<open>datetime.now(TZ_SH)\<close>, counted from 0), the feed's answer for each year
  (\<open>fetch_holiday_cn\<close>: the \<open>days\<close> list or the exception raised), and the two CSV files
  (the rows, or the exception raised by \<open>open\<close>).
\<close>

record world =
  now :: "nat \<Rightarrow> datetime"
  fetch_holiday_cn :: "int \<Rightarrow> exn + holiday_day list"
  fixed_csv :: "exn + csv_row list"
  lunar_csv :: "exn + csv_row list"

text \<open>
  The state a run mutates: the calendar object under construction and the number of
  clock readings made so far. A function that can raise returns the exception, if any,
  together with the state it leaves behind.
\<close>

record state =
  cal :: calendar
  clock_reads :: nat

definition and_then ::
  "exn option \<times> state \<Rightarrow> (state \<Rightarrow> exn option \<times> state) \<Rightarrow> exn option \<times> state" where
  "and_then r f = (case r of (None, s) \<Rightarrow> f s | (Some e, s) \<Rightarrow> (Some e, s))"

section \<open>The generator (scripts/generate\_ics.py)\<close>

subsection \<open>String constants of the script\<close>

text \<open>The script's literals, as code points (the comment gives the text).\<close>

definition CALNAME :: pystr where
  \<comment> \<open>U+4E2D U+56FD U+8282 U+5047 U+65E5 U+4E0E U+5E38 U+7528 U+8282 U+65E5\<close>
  "CALNAME = [0x4E2D, 0x56FD, 0x8282, 0x5047, 0x65E5, 0x4E0E, 0x5E38, 0x7528, 0x8282, 0x65E5]"

definition CAT_STATUTORY :: pystr where
  \<comment> \<open>category of a statutory holiday\<close>
  "CAT_STATUTORY = [0x6CD5, 0x5B9A, 0x8282, 0x5047, 0x65E5]"

definition DESC_STATUTORY :: pystr where
  "DESC_STATUTORY = [0x6CD5, 0x5B9A, 0x8282, 0x5047, 0x65E5, 0xFF08, 0x6765, 0x6E90, 0xFF1A]
     @ ascii ''holiday-cn'' @ [0xFF09]"

definition PREFIX_WORKDAY :: pystr where
  \<comment> \<open>the title prefix of a compensatory workday: U+3010 U+8865 U+73ED U+3011\<close>
  "PREFIX_WORKDAY = [0x3010, 0x8865, 0x73ED, 0x3011]"

definition CAT_WORKDAY :: pystr where
  \<comment> \<open>category of a compensatory workday: U+8865 U+73ED\<close>
  "CAT_WORKDAY = [0x8865, 0x73ED]"

definition DESC_WORKDAY :: pystr where
  "DESC_WORKDAY = [0x8C03, 0x4F11, 0x5B89, 0x6392, 0x7684, 0x5DE5, 0x4F5C, 0x65E5,
                   0xFF08, 0x6765, 0x6E90, 0xFF1A] @ ascii ''holiday-cn'' @ [0xFF09]"

definition CAT_INTERNATIONAL :: pystr where
  \<comment> \<open>category of a fixed or floating international holiday\<close>
  "CAT_INTERNATIONAL = [0x56FD, 0x9645, 0x8282, 0x65E5]"

definition DESC_FIXED :: pystr where
  "DESC_FIXED = [0x56FA, 0x5B9A, 0x516C, 0x5386, 0x8282, 0x65E5]"

definition CAT_TRADITIONAL :: pystr where
  \<comment> \<open>category of a traditional (lunar) holiday\<close>
  "CAT_TRADITIONAL = [0x4F20, 0x7EDF, 0x8282, 0x65E5]"

definition DESC_LUNAR :: pystr where
  "DESC_LUNAR = [0x4E2D, 0x56FD, 0x4F20, 0x7EDF, 0x8282, 0x65E5]"

definition MOTHERS_DAY :: pystr where
  "MOTHERS_DAY = [0x6BCD, 0x4EB2, 0x8282]"

definition DESC_MOTHERS_DAY :: pystr where
  "DESC_MOTHERS_DAY = [0x6D6E, 0x52A8, 0x56FD, 0x9645, 0x8282, 0x65E5, 0xFF1A, 0x4E94, 0x6708,
                       0x7B2C, 0x4E8C, 0x4E2A, 0x661F, 0x671F, 0x65E5]"

definition FATHERS_DAY :: pystr where
  "FATHERS_DAY = [0x7236, 0x4EB2, 0x8282]"

definition DESC_FATHERS_DAY :: pystr where
  "DESC_FATHERS_DAY = [0x6D6E, 0x52A8, 0x56FD, 0x9645, 0x8282, 0x65E5, 0xFF1A, 0x516D, 0x6708,
                       0x7B2C, 0x4E09, 0x4E2A, 0x661F, 0x671F, 0x65E5]"

definition THANKSGIVING :: pystr where
  "THANKSGIVING = [0x611F, 0x6069, 0x8282]"

definition DESC_THANKSGIVING :: pystr where
  "DESC_THANKSGIVING = [0x6D6E, 0x52A8, 0x56FD, 0x9645, 0x8282, 0x65E5, 0xFF1A, 0x5341, 0x4E00,
                        0x6708, 0x7B2C, 0x56DB, 0x4E2A, 0x661F, 0x671F, 0x56DB, 0xFF08, 0x7F8E,
                        0xFF09]"

subsection \<open>The calendar and its events\<close>

definition new_calendar :: calendar where
  "new_calendar =
     \<lparr> prodid = ascii ''-//China Holiday Calendar//github.com//china-calendar//'',
       version = ascii ''2.0'',
       x_wr_calname = CALNAME,
       x_wr_timezone = ascii ''Asia/Shanghai'',
       components = [] \<rparr>"

text \<open>
  \<open>_add_all_day_event\<close>. The properties are set in the source's order: computing
  \<open>dtend\<close> can raise before the clock is read and before the event is added.
\<close>

definition add_all_day_event ::
  "(nat \<Rightarrow> datetime) \<Rightarrow> date \<Rightarrow> pystr \<Rightarrow> pystr \<Rightarrow> pystr \<Rightarrow> state \<Rightarrow> exn option \<times> state" where
  "add_all_day_event clock the_date summ descr category s =
     (case date_add_days the_date 1 of
        Inl e \<Rightarrow> (Some e, s)
      | Inr next_day \<Rightarrow>
          (None,
           \<lparr> cal = add_component (cal s)
                 \<lparr> summary = summ,
                   description = descr,
                   categories = category,
                   dtstart = VDate the_date,
                   dtend = VDate next_day,
                   transp = ascii ''TRANSPARENT'',
                   dtstamp = VDatetime (clock (clock_reads s)),
                   uid = isoformat the_date @ ascii ''-'' @ summ @ ascii ''@china-calendar'' \<rparr>,
             clock_reads = Suc (clock_reads s) \<rparr>))"

subsection \<open>Statutory holidays and compensatory workdays\<close>

text \<open>Python truthiness of the values \<open>d.get\<close> returns.\<close>

definition truthy_str :: "pystr option \<Rightarrow> bool" where
  "truthy_str v = (case v of None \<Rightarrow> False | Some s \<Rightarrow> s \<noteq> [])"

definition truthy_bool :: "bool option \<Rightarrow> bool" where
  "truthy_bool v = (case v of None \<Rightarrow> False | Some b \<Rightarrow> b)"

fun add_offdays_and_workdays ::
  "pylib \<Rightarrow> (nat \<Rightarrow> datetime) \<Rightarrow> holiday_day list \<Rightarrow> state \<Rightarrow> exn option \<times> state" where
  "add_offdays_and_workdays lib clock [] s = (None, s)"
| "add_offdays_and_workdays lib clock (d # days) s =
     (let name = hd_name d; day_str = hd_date d; is_off = hd_isOffDay d
      in if \<not> truthy_str day_str then add_offdays_and_workdays lib clock days s
         else case strptime_ymd lib (the day_str) of
                None \<Rightarrow> (Some ValueError, s)
              | Some dt \<Rightarrow>
                  if truthy_bool is_off \<and> truthy_str name
                  then and_then
                         (add_all_day_event clock dt (the name) DESC_STATUTORY CAT_STATUTORY s)
                         (add_offdays_and_workdays lib clock days)
                  else if \<not> truthy_bool is_off \<and> truthy_str name
                  then and_then
                         (add_all_day_event clock dt (PREFIX_WORKDAY @ the name)
                            DESC_WORKDAY CAT_WORKDAY s)
                         (add_offdays_and_workdays lib clock days)
                  else add_offdays_and_workdays lib clock days s)"

subsection \<open>Fixed-date holidays\<close>

record fixed_item =
  fix_name :: pystr
  fix_month :: int
  fix_day :: int
  fix_description :: pystr

text \<open>\<open>row.get(key, "").strip()\<close> and \<open>int(row[key])\<close>, with the exceptions they raise.\<close>

definition row_get_strip :: "pylib \<Rightarrow> csv_row \<Rightarrow> pystr \<Rightarrow> exn + pystr" where
  "row_get_strip lib row key =
     (case row key of
        None \<Rightarrow> Inr (str_strip lib [])
      | Some None \<Rightarrow> Inl AttributeError
      | Some (Some v) \<Rightarrow> Inr (str_strip lib v))"

definition row_int :: "pylib \<Rightarrow> csv_row \<Rightarrow> pystr \<Rightarrow> exn + int" where
  "row_int lib row key =
     (case row key of
        None \<Rightarrow> Inl KeyError
      | Some None \<Rightarrow> Inl TypeError
      | Some (Some v) \<Rightarrow> (case int_of_str lib v of None \<Rightarrow> Inl ValueError | Some i \<Rightarrow> Inr i))"

text \<open>The dict built for one row; its entries are evaluated in the order written.\<close>

definition fixed_item_of_row :: "pylib \<Rightarrow> csv_row \<Rightarrow> exn + fixed_item" where
  "fixed_item_of_row lib row =
     (case row_get_strip lib row (ascii ''name'') of Inl e \<Rightarrow> Inl e | Inr nm \<Rightarrow>
     (case row_int lib row (ascii ''month'') of Inl e \<Rightarrow> Inl e | Inr mo \<Rightarrow>
     (case row_int lib row (ascii ''day'') of Inl e \<Rightarrow> Inl e | Inr dy \<Rightarrow>
     (case row_get_strip lib row (ascii ''description'') of Inl e \<Rightarrow> Inl e | Inr de \<Rightarrow>
        Inr \<lparr> fix_name = nm, fix_month = mo, fix_day = dy, fix_description = de \<rparr>))))"

fun fixed_items_of_rows :: "pylib \<Rightarrow> csv_row list \<Rightarrow> exn + fixed_item list" where
  "fixed_items_of_rows lib [] = Inr []"
| "fixed_items_of_rows lib (row # rows) =
     (case fixed_item_of_row lib row of Inl e \<Rightarrow> Inl e | Inr it \<Rightarrow>
     (case fixed_items_of_rows lib rows of Inl e \<Rightarrow> Inl e | Inr its \<Rightarrow> Inr (it # its)))"

definition load_fixed_holidays :: "pylib \<Rightarrow> exn + csv_row list \<Rightarrow> exn + fixed_item list" where
  "load_fixed_holidays lib file =
     (case file of Inl e \<Rightarrow> Inl e | Inr rows \<Rightarrow> fixed_items_of_rows lib rows)"

text \<open>The inner loop of \<open>generate_fixed_holidays\<close> (\<open>for it in items\<close>), then the outer one.\<close>

fun generate_fixed_holidays_in ::
  "(nat \<Rightarrow> datetime) \<Rightarrow> int \<Rightarrow> fixed_item list \<Rightarrow> state \<Rightarrow> exn option \<times> state" where
  "generate_fixed_holidays_in clock y [] s = (None, s)"
| "generate_fixed_holidays_in clock y (it # items) s =
     (case new_date y (fix_month it) (fix_day it) of
        Inl e \<Rightarrow> (Some e, s)
      | Inr dt \<Rightarrow>
          let desc = (if fix_description it \<noteq> [] then fix_description it else DESC_FIXED)
          in and_then (add_all_day_event clock dt (fix_name it) desc CAT_INTERNATIONAL s)
               (generate_fixed_holidays_in clock y items))"

fun generate_fixed_holidays ::
  "(nat \<Rightarrow> datetime) \<Rightarrow> int list \<Rightarrow> fixed_item list \<Rightarrow> state \<Rightarrow> exn option \<times> state" where
  "generate_fixed_holidays clock [] items s = (None, s)"
| "generate_fixed_holidays clock (y # years) items s =
     and_then (generate_fixed_holidays_in clock y items s)
       (generate_fixed_holidays clock years items)"

subsection \<open>Lunar (traditional) holidays\<close>

record lunar_item =
  lun_name :: pystr
  lun_month :: int
  lun_day :: int
  lun_description :: pystr

definition lunar_item_of_row :: "pylib \<Rightarrow> csv_row \<Rightarrow> exn + lunar_item" where
  "lunar_item_of_row lib row =
     (case row_get_strip lib row (ascii ''name'') of Inl e \<Rightarrow> Inl e | Inr nm \<Rightarrow>
     (case row_int lib row (ascii ''lunar_month'') of Inl e \<Rightarrow> Inl e | Inr mo \<Rightarrow>
     (case row_int lib row (ascii ''lunar_day'') of Inl e \<Rightarrow> Inl e | Inr dy \<Rightarrow>
     (case row_get_strip lib row (ascii ''description'') of Inl e \<Rightarrow> Inl e | Inr de \<Rightarrow>
        Inr \<lparr> lun_name = nm, lun_month = mo, lun_day = dy, lun_description = de \<rparr>))))"

fun lunar_items_of_rows :: "pylib \<Rightarrow> csv_row list \<Rightarrow> exn + lunar_item list" where
  "lunar_items_of_rows lib [] = Inr []"
| "lunar_items_of_rows lib (row # rows) =
     (case lunar_item_of_row lib row of Inl e \<Rightarrow> Inl e | Inr it \<Rightarrow>
     (case lunar_items_of_rows lib rows of Inl e \<Rightarrow> Inl e | Inr its \<Rightarrow> Inr (it # its)))"

definition load_lunar_holidays :: "pylib \<Rightarrow> exn + csv_row list \<Rightarrow> exn + lunar_item list" where
  "load_lunar_holidays lib file =
     (case file of Inl e \<Rightarrow> Inl e | Inr rows \<Rightarrow> lunar_items_of_rows lib rows)"

text \<open>
  Each of the two \<open>try\<close> blocks converts one candidate lunar year and keeps the date when
  it falls in the Gregorian year asked for; \<open>except Exception: pass\<close> drops a failed
  conversion.
\<close>

definition lunar_to_solar_for_gregorian_year :: "pylib \<Rightarrow> int \<Rightarrow> int \<Rightarrow> int \<Rightarrow> date list" where
  "lunar_to_solar_for_gregorian_year lib gregorian_year lunar_month lunar_day =
     (let results = [];
          results =
            (case lunar_to_date lib gregorian_year lunar_month lunar_day of
               None \<Rightarrow> results
             | Some dt1 \<Rightarrow> if year dt1 = gregorian_year then results @ [dt1] else results);
          results =
            (case lunar_to_date lib (gregorian_year - 1) lunar_month lunar_day of
               None \<Rightarrow> results
             | Some dt0 \<Rightarrow> if year dt0 = gregorian_year then results @ [dt0] else results)
      in results)"

text \<open>
  The three nested loops of \<open>generate_lunar_holidays\<close>, innermost first. The set
  \<open>seen\<close> is local to one call and is threaded through the loops with the state.
\<close>

fun generate_lunar_holidays_sols ::
  "(nat \<Rightarrow> datetime) \<Rightarrow> lunar_item \<Rightarrow> date list \<Rightarrow> (date \<times> pystr) set \<times> state
     \<Rightarrow> exn option \<times> (date \<times> pystr) set \<times> state" where
  "generate_lunar_holidays_sols clock it [] (seen, s) = (None, seen, s)"
| "generate_lunar_holidays_sols clock it (dt # sols) (seen, s) =
     (let key = (dt, lun_name it)
      in if key \<in> seen then generate_lunar_holidays_sols clock it sols (seen, s)
         else
           let seen = insert key seen;
               desc = (if lun_description it \<noteq> [] then lun_description it else DESC_LUNAR)
           in case add_all_day_event clock dt (lun_name it) desc CAT_TRADITIONAL s of
                (Some e, s') \<Rightarrow> (Some e, seen, s')
              | (None, s') \<Rightarrow> generate_lunar_holidays_sols clock it sols (seen, s'))"

fun generate_lunar_holidays_in ::
  "pylib \<Rightarrow> (nat \<Rightarrow> datetime) \<Rightarrow> int \<Rightarrow> lunar_item list \<Rightarrow> (date \<times> pystr) set \<times> state
     \<Rightarrow> exn option \<times> (date \<times> pystr) set \<times> state" where
  "generate_lunar_holidays_in lib clock y [] (seen, s) = (None, seen, s)"
| "generate_lunar_holidays_in lib clock y (it # items) (seen, s) =
     (let sols = lunar_to_solar_for_gregorian_year lib y (lun_month it) (lun_day it)
      in case generate_lunar_holidays_sols clock it sols (seen, s) of
           (Some e, seen', s') \<Rightarrow> (Some e, seen', s')
         | (None, seen', s') \<Rightarrow> generate_lunar_holidays_in lib clock y items (seen', s'))"

fun generate_lunar_holidays_years ::
  "pylib \<Rightarrow> (nat \<Rightarrow> datetime) \<Rightarrow> int list \<Rightarrow> lunar_item list \<Rightarrow> (date \<times> pystr) set \<times> state
     \<Rightarrow> exn option \<times> (date \<times> pystr) set \<times> state" where
  "generate_lunar_holidays_years lib clock [] items (seen, s) = (None, seen, s)"
| "generate_lunar_holidays_years lib clock (y # years) items (seen, s) =
     (case generate_lunar_holidays_in lib clock y items (seen, s) of
        (Some e, seen', s') \<Rightarrow> (Some e, seen', s')
      | (None, seen', s') \<Rightarrow> generate_lunar_holidays_years lib clock years items (seen', s'))"

definition generate_lunar_holidays ::
  "pylib \<Rightarrow> (nat \<Rightarrow> datetime) \<Rightarrow> int list \<Rightarrow> lunar_item list \<Rightarrow> state \<Rightarrow> exn option \<times> state" where
  "generate_lunar_holidays lib clock years items s =
     (case generate_lunar_holidays_years lib clock years items ({}, s) of
        (r, seen, s') \<Rightarrow> (r, s'))"

subsection \<open>Floating holidays\<close>

definition get_nth_weekday :: "int \<Rightarrow> int \<Rightarrow> int \<Rightarrow> int \<Rightarrow> exn + date" where
  "get_nth_weekday y m wd n =
     (case new_date y m 1 of
        Inl e \<Rightarrow> Inl e
      | Inr first_day \<Rightarrow>
          let offset = (wd - weekday first_day) mod 7
          in date_add_days first_day (offset + (n - 1) * 7))"

text \<open>One floating holiday: compute the date, then add the event.\<close>

definition add_floating ::
  "(nat \<Rightarrow> datetime) \<Rightarrow> exn + date \<Rightarrow> pystr \<Rightarrow> pystr \<Rightarrow> state \<Rightarrow> exn option \<times> state" where
  "add_floating clock r summ descr s =
     (case r of
        Inl e \<Rightarrow> (Some e, s)
      | Inr dt \<Rightarrow> add_all_day_event clock dt summ descr CAT_INTERNATIONAL s)"

fun generate_floating_holidays ::
  "(nat \<Rightarrow> datetime) \<Rightarrow> int list \<Rightarrow> state \<Rightarrow> exn option \<times> state" where
  "generate_floating_holidays clock [] s = (None, s)"
| "generate_floating_holidays clock (y # years) s =
     and_then (add_floating clock (get_nth_weekday y 5 6 2) MOTHERS_DAY DESC_MOTHERS_DAY s)
       (\<lambda>s. and_then
          (add_floating clock (get_nth_weekday y 6 6 3) FATHERS_DAY DESC_FATHERS_DAY s)
          (\<lambda>s. and_then
             (add_floating clock (get_nth_weekday y 11 3 4) THANKSGIVING DESC_THANKSGIVING s)
             (generate_floating_holidays clock years)))"

subsection \<open>Building the calendar\<close>

text \<open>
  The statutory pass: for each year, \<open>try: fetch; add\<close> with \<open>except Exception: pass\<close>.
  Whatever is raised is dropped; the events added before it stay in the calendar.
\<close>

fun statutory_pass :: "pylib \<Rightarrow> world \<Rightarrow> int list \<Rightarrow> state \<Rightarrow> state" where
  "statutory_pass lib w [] s = s"
| "statutory_pass lib w (y # years) s =
     statutory_pass lib w years
       (case fetch_holiday_cn w y of
          Inl e \<Rightarrow> s
        | Inr days \<Rightarrow> snd (add_offdays_and_workdays lib (now w) days s))"

text \<open>\<open>try: ... except FileNotFoundError: pass\<close>.\<close>

definition except_FileNotFoundError :: "exn option \<times> state \<Rightarrow> exn option \<times> state" where
  "except_FileNotFoundError r =
     (case r of (Some e, s) \<Rightarrow> if e = FileNotFoundError then (None, s) else (Some e, s)
              | (None, s) \<Rightarrow> (None, s))"

definition fixed_pass :: "pylib \<Rightarrow> world \<Rightarrow> int list \<Rightarrow> state \<Rightarrow> exn option \<times> state" where
  "fixed_pass lib w years s =
     except_FileNotFoundError
       (case load_fixed_holidays lib (fixed_csv w) of
          Inl e \<Rightarrow> (Some e, s)
        | Inr fixed_items \<Rightarrow> generate_fixed_holidays (now w) years fixed_items s)"

definition lunar_pass :: "pylib \<Rightarrow> world \<Rightarrow> int list \<Rightarrow> state \<Rightarrow> exn option \<times> state" where
  "lunar_pass lib w years s =
     except_FileNotFoundError
       (case load_lunar_holidays lib (lunar_csv w) of
          Inl e \<Rightarrow> (Some e, s)
        | Inr lunar_items \<Rightarrow> generate_lunar_holidays lib (now w) years lunar_items s)"

text \<open>
  \<open>build_calendar\<close>, with the state it leaves behind; the first clock reading gives the
  current year. \<open>build_calendar\<close> proper returns the calendar or raises.
\<close>

definition target_years :: "world \<Rightarrow> int list" where
  "target_years w = (let current_year = year (dt_date (now w 0)) in [current_year, current_year + 1])"

definition build_calendar_run :: "pylib \<Rightarrow> world \<Rightarrow> exn option \<times> state" where
  "build_calendar_run lib w =
     (let years = target_years w;
          s = \<lparr> cal = new_calendar, clock_reads = 1 \<rparr>;
          s = statutory_pass lib w years s
      in and_then (fixed_pass lib w years s)
           (\<lambda>s. and_then (lunar_pass lib w years s)
                  (generate_floating_holidays (now w) years)))"

definition build_calendar :: "pylib \<Rightarrow> world \<Rightarrow> exn + calendar" where
  "build_calendar lib w =
     (case build_calendar_run lib w of (None, s) \<Rightarrow> Inr (cal s) | (Some e, s) \<Rightarrow> Inl e)"

section \<open>A library instance for evaluation\<close>

text \<open>
  Concrete versions of the library parameters, used to evaluate the model at concrete
  inputs. On strings whose digits are ASCII they compute what the Python functions compute
  (Python's parsers also accept the other Unicode decimal digits; no such string is
  evaluated below). The theorems about the generator hold for every library.
\<close>

definition is_ascii_digit :: "nat \<Rightarrow> bool" where
  "is_ascii_digit c \<longleftrightarrow> 48 \<le> c \<and> c \<le> 57"

definition ascii_number :: "pystr \<Rightarrow> int" where
  "ascii_number cs = foldl (\<lambda>a c. 10 * a + (int c - 48)) 0 cs"

fun split_on :: "nat \<Rightarrow> pystr \<Rightarrow> pystr list" where
  "split_on sep [] = [[]]"
| "split_on sep (c # cs) =
     (if c = sep then [] # split_on sep cs
      else case split_on sep cs of [] \<Rightarrow> [[c]] | p # ps \<Rightarrow> (c # p) # ps)"

text \<open>
  The fields of \<open>%Y-%m-%d\<close> as \<open>strptime\<close> matches them: four digits; one or two digits
  making 1..12; one or two digits making 1..31, or a space and a digit 1..9.
\<close>

definition month_field :: "pystr \<Rightarrow> int option" where
  "month_field cs =
     (if (length cs = 1 \<or> length cs = 2) \<and> list_all is_ascii_digit cs
         \<and> 1 \<le> ascii_number cs \<and> ascii_number cs \<le> 12
      then Some (ascii_number cs) else None)"

definition day_field :: "pystr \<Rightarrow> int option" where
  "day_field cs =
     (if (length cs = 1 \<or> length cs = 2) \<and> list_all is_ascii_digit cs
         \<and> 1 \<le> ascii_number cs \<and> ascii_number cs \<le> 31
      then Some (ascii_number cs)
      else case cs of
             [sp, c] \<Rightarrow> if sp = 32 \<and> 49 \<le> c \<and> c \<le> 57 then Some (int c - 48) else None
           | _ \<Rightarrow> None)"

definition ascii_strptime_ymd :: "pystr \<Rightarrow> date option" where
  "ascii_strptime_ymd s =
     (case split_on 45 s of
        [ys, ms, ds] \<Rightarrow>
          if length ys = 4 \<and> list_all is_ascii_digit ys
          then (case month_field ms of
                  None \<Rightarrow> None
                | Some m \<Rightarrow>
                   (case day_field ds of
                      None \<Rightarrow> None
                    | Some d \<Rightarrow>
                       (case new_date (ascii_number ys) m d of
                          Inl e \<Rightarrow> None
                        | Inr dt \<Rightarrow> Some dt)))
          else None
      | _ \<Rightarrow> None)"

text \<open>\<open>str.strip()\<close>: the characters for which \<open>str.isspace()\<close> holds are removed at both ends.\<close>

definition isspace :: "nat \<Rightarrow> bool" where
  "isspace c \<longleftrightarrow>
     (9 \<le> c \<and> c \<le> 13) \<or> (28 \<le> c \<and> c \<le> 32) \<or> c = 0x85 \<or> c = 0xA0 \<or> c = 0x1680
     \<or> (0x2000 \<le> c \<and> c \<le> 0x200A) \<or> c = 0x2028 \<or> c = 0x2029 \<or> c = 0x202F
     \<or> c = 0x205F \<or> c = 0x3000"

definition strip :: "pystr \<Rightarrow> pystr" where
  "strip s = rev (dropWhile isspace (rev (dropWhile isspace s)))"

text \<open>
  \<open>int(s)\<close> in base 10: surrounding whitespace, an optional sign, then digits that single
  underscores may separate.
\<close>

fun digits_and_underscores :: "pystr \<Rightarrow> bool" where
  "digits_and_underscores [] = False"
| "digits_and_underscores [c] = is_ascii_digit c"
| "digits_and_underscores (c # u # cs) =
     (is_ascii_digit c \<and>
      (if u = 95 then digits_and_underscores cs else digits_and_underscores (u # cs)))"

definition ascii_int :: "pystr \<Rightarrow> int option" where
  "ascii_int s =
     (let t = strip s;
          (neg, body) = (case t of
                           [] \<Rightarrow> (False, [])
                         | c # cs \<Rightarrow> if c = 45 then (True, cs)
                                    else if c = 43 then (False, cs) else (False, t))
      in if digits_and_underscores body
         then (let v = ascii_number (filter (\<lambda>c. c \<noteq> 95) body) in Some (if neg then - v else v))
         else None)"

text \<open>
  A few entries of the lunar conversion table around 2024 (the first day of the first
  month, the last days of the twelfth month, and the 20th of the eleventh month);
  every other conversion is treated as failing.
\<close>

definition lunar_excerpt :: "int \<Rightarrow> int \<Rightarrow> int \<Rightarrow> date option" where
  "lunar_excerpt y m d =
     (if (y, m, d) = (2023, 1, 1) then Some (Date 2023 1 22)
      else if (y, m, d) = (2023, 11, 20) then Some (Date 2024 1 1)
      else if (y, m, d) = (2023, 12, 30) then Some (Date 2024 2 9)
      else if (y, m, d) = (2024, 1, 1) then Some (Date 2024 2 10)
      else if (y, m, d) = (2024, 11, 20) then Some (Date 2024 12 20)
      else if (y, m, d) = (2024, 12, 29) then Some (Date 2025 1 28)
      else if (y, m, d) = (2025, 1, 1) then Some (Date 2025 1 29)
      else None)"

definition ascii_lib :: pylib where
  "ascii_lib =
     \<lparr> strptime_ymd = ascii_strptime_ymd,
       int_of_str = ascii_int,
       str_strip = strip,
       lunar_to_date = lunar_excerpt \<rparr>"

section \<open>Notions used to state the properties\<close>

text \<open>
  \<open>weekday_count y m wd d\<close> is the number of days of month \<open>m\<close> of year \<open>y\<close>, from the
  1st up to day \<open>d\<close>, that fall on weekday \<open>wd\<close>: day \<open>d\<close> is the \<open>n\<close>-th such date,
  counting from the 1st, when it falls on \<open>wd\<close> and the count is \<open>n\<close>.
\<close>

definition weekday_count :: "int \<Rightarrow> int \<Rightarrow> int \<Rightarrow> int \<Rightarrow> nat" where
  "weekday_count y m wd d = length (filter (\<lambda>d'. weekday (Date y m d') = wd) [1..d])"


section \<open>Properties of the date arithmetic\<close>

text \<open>
  The ordinal of a date and the date of an ordinal are inverse to each other on the
  dates that exist (years 1 to 9999), so adding days to a date adds to the ordinal.
\<close>

lemma upto_1_12: "[1..12] = [1, 2, 3, 4, 5, 6, 7, 8, 9, 10, 11, 12::int]"
  by code_simp

lemma month_cases:
  assumes "1 \<le> m" "m \<le> 12"
  shows "m = 1 \<or> m = 2 \<or> m = 3 \<or> m = 4 \<or> m = 5 \<or> m = 6 \<or> m = 7 \<or> m = 8
         \<or> m = 9 \<or> m = 10 \<or> m = 11 \<or> m = (12::int)"
proof -
  have "m \<in> set [1..12]" using assms by simp
  then show ?thesis unfolding upto_1_12 by simp
qed

lemma div_decomp: "0 \<le> r \<Longrightarrow> r < k \<Longrightarrow> x = k * q + r \<Longrightarrow> x div k = (q::int)"
  by simp

lemma mod_decomp: "0 \<le> r \<Longrightarrow> r < k \<Longrightarrow> x = k * q + r \<Longrightarrow> x mod k = (r::int)"
  by simp

lemma div_Suc_int:
  assumes "0 < (k::int)"
  shows "(p + 1) div k = p div k + (if (p + 1) mod k = 0 then 1 else 0)"
proof -
  define q r where "q = p div k" and "r = p mod k"
  have p: "p = k * q + r" and r: "0 \<le> r" "r < k"
    using assms by (simp_all add: q_def r_def)
  show ?thesis
  proof (cases "r = k - 1")
    case True
    have e: "p + 1 = k * (q + 1) + 0" using p True by (simp add: algebra_simps)
    have "(p + 1) div k = q + 1" using assms e by (intro div_decomp [where r = 0]) auto
    moreover have "(p + 1) mod k = 0" using assms e by (intro mod_decomp [where q = "q + 1"]) auto
    ultimately show ?thesis by (simp add: q_def)
  next
    case False
    have e: "p + 1 = k * q + (r + 1)" using p by simp
    have r1: "0 \<le> r + 1" "r + 1 < k" using r False by auto
    have "(p + 1) div k = q" using r1 e by (intro div_decomp [where r = "r + 1"]) auto
    moreover have "(p + 1) mod k = r + 1" using r1 e by (intro mod_decomp [where q = q]) auto
    ultimately show ?thesis using r by (simp add: q_def)
  qed
qed

lemma mod_400_100: "(y::int) mod 400 = 0 \<Longrightarrow> y mod 100 = 0"
  using mod_mod_cancel [of 100 400 y] by simp

lemma mod_100_4: "(y::int) mod 100 = 0 \<Longrightarrow> y mod 4 = 0"
  using mod_mod_cancel [of 4 100 y] by simp

lemma days_before_year_Suc:
  "days_before_year (y + 1) = days_before_year y + (if is_leap y then 366 else 365)"
proof -
  have a: "y div 4 = (y - 1) div 4 + (if y mod 4 = 0 then 1 else 0)"
    using div_Suc_int [of 4 "y - 1"] by simp
  have b: "y div 100 = (y - 1) div 100 + (if y mod 100 = 0 then 1 else 0)"
    using div_Suc_int [of 100 "y - 1"] by simp
  have c: "y div 400 = (y - 1) div 400 + (if y mod 400 = 0 then 1 else 0)"
    using div_Suc_int [of 400 "y - 1"] by simp
  define A B C where "A = (y - 1) div 4" and "B = (y - 1) div 100" and "C = (y - 1) div 400"
  define P Q R where "P \<longleftrightarrow> y mod 4 = 0" and "Q \<longleftrightarrow> y mod 100 = 0" and "R \<longleftrightarrow> y mod 400 = 0"
  have RQ: "R \<Longrightarrow> Q" and QP: "Q \<Longrightarrow> P"
    unfolding P_def Q_def R_def by (rule mod_400_100, assumption) (rule mod_100_4, assumption)
  have a': "y div 4 = A + (if P then 1 else 0)" using a by (simp add: A_def P_def)
  have b': "y div 100 = B + (if Q then 1 else 0)" using b by (simp add: B_def Q_def)
  have c': "y div 400 = C + (if R then 1 else 0)" using c by (simp add: C_def R_def)
  have lhs: "days_before_year (y + 1) = y * 365 + (A + (if P then 1 else 0)) - (B + (if Q then 1 else 0)) + (C + (if R then 1 else 0))"
    unfolding days_before_year_def Let_def by (simp only: add_diff_cancel_right' a' b' c')
  have rhs: "days_before_year y = (y - 1) * 365 + A - B + C"
    unfolding days_before_year_def Let_def A_def B_def C_def by (rule refl)
  have leap: "is_leap y \<longleftrightarrow> P \<and> (\<not> Q \<or> R)"
    unfolding is_leap_def P_def Q_def R_def by (rule refl)
  show ?thesis
    unfolding lhs rhs leap using RQ QP by (cases P; cases Q; cases R) (simp_all add: algebra_simps)
qed


lemma month_part_all:
  "\<forall>n \<in> {0..364}. \<forall>leap \<in> {True, False}.
    (let mo = (n + 50) div 32;
         preceding = DAYS_BEFORE_MONTH ! nat mo + (if mo > 2 \<and> leap then 1 else 0);
         (mo', preceding') =
            (if preceding > n
             then (mo - 1,
                   preceding - (DAYS_IN_MONTH ! nat (mo - 1)
                                + (if mo - 1 = 2 \<and> leap then 1 else 0)))
             else (mo, preceding))
     in 1 \<le> mo' \<and> mo' \<le> 12
        \<and> preceding' = DAYS_BEFORE_MONTH ! nat mo' + (if mo' > 2 \<and> leap then 1 else 0)
        \<and> preceding' \<le> n
        \<and> n - preceding' + 1 \<le> (if mo' = 2 \<and> leap then 29 else DAYS_IN_MONTH ! nat mo'))"
  by code_simp


lemma DI_values: "DI400Y = 146097" "DI100Y = 36524" "DI4Y = 1461"
  by (simp_all add: DI400Y_def DI100Y_def DI4Y_def days_before_year_def)

lemma days_before_year_decomp:
  assumes "0 \<le> b" "b \<le> 3" "0 \<le> c" "c \<le> 24" "0 \<le> e" "e \<le> 3"
  shows "days_before_year (400 * a + 100 * b + 4 * c + e + 1)
         = 146097 * a + 36524 * b + 1461 * c + 365 * e"
proof -
  let ?y = "400 * a + 100 * b + 4 * c + e"
  have d4: "?y div 4 = 100 * a + 25 * b + c"
    by (rule div_decomp [where r = e]) (use assms in auto)
  have d100: "?y div 100 = 4 * a + b"
    by (rule div_decomp [where r = "4 * c + e"]) (use assms in auto)
  have d400: "?y div 400 = a" 
    by (rule div_decomp [where r = "100 * b + 4 * c + e"]) (use assms in auto)
  show ?thesis
    unfolding days_before_year_def Let_def using d4 d100 d400 by simp
qed

lemma is_leap_decomp:
  assumes "0 \<le> b" "b \<le> 3" "0 \<le> c" "c \<le> 24" "0 \<le> e" "e \<le> 3"
  shows "is_leap (400 * a + 100 * b + 4 * c + e + 1) \<longleftrightarrow> (e = 3 \<and> (c \<noteq> 24 \<or> b = 3))"
proof -
  let ?y = "400 * a + 100 * b + 4 * c + e + 1"
  show ?thesis
  proof (cases "e = 3")
    case False
    have "?y mod 4 = e + 1"
      by (rule mod_decomp [where q = "100 * a + 25 * b + c"]) (use assms False in auto)
    then show ?thesis using assms False by (simp add: is_leap_def)
  next
    case e3: True
    have m4: "?y mod 4 = 0"
      by (rule mod_decomp [where q = "100 * a + 25 * b + c + 1"]) (use e3 in auto)
    show ?thesis
    proof (cases "c = 24")
      case False
      have "?y mod 100 = 4 * (c + 1)"
        by (rule mod_decomp [where q = "4 * a + b"]) (use assms e3 False in auto)
      then show ?thesis using assms e3 False m4 by (simp add: is_leap_def)
    next
      case c24: True
      have m100: "?y mod 100 = 0"
        by (rule mod_decomp [where q = "4 * a + b + 1"]) (use e3 c24 in auto)
      show ?thesis
      proof (cases "b = 3")
        case False
        have "?y mod 400 = 100 * (b + 1)"
          by (rule mod_decomp [where q = a]) (use assms e3 c24 False in auto)
        then show ?thesis using assms e3 c24 False m4 m100 by (simp add: is_leap_def)
      next
        case True
        have "?y mod 400 = 0"
          by (rule mod_decomp [where q = "a + 1"]) (use e3 c24 True in auto)
        then show ?thesis using e3 c24 True m4 m100 by (simp add: is_leap_def)
      qed
    qed
  qed
qed

lemma month_part:
  assumes "0 \<le> (n::int)" "n < 365"
  obtains mo' preceding' where
    "(let mo = (n + 50) div 32;
          preceding = DAYS_BEFORE_MONTH ! nat mo + (if mo > 2 \<and> leap then 1 else 0)
      in if preceding > n
         then (mo - 1,
               preceding - (DAYS_IN_MONTH ! nat (mo - 1)
                            + (if mo - 1 = 2 \<and> leap then 1 else 0)))
         else (mo, preceding)) = (mo', preceding')"
    "1 \<le> mo'" "mo' \<le> 12"
    "preceding' = DAYS_BEFORE_MONTH ! nat mo' + (if mo' > 2 \<and> leap then 1 else 0)"
    "preceding' \<le> n"
    "n - preceding' + 1 \<le> (if mo' = 2 \<and> leap then 29 else DAYS_IN_MONTH ! nat mo')"
proof -
  have n: "n \<in> {0..364}" using assms by simp
  have l: "leap \<in> {True, False}" by simp
  show ?thesis
    using month_part_all [rule_format, OF n l] that
    by (auto simp only: Let_def split: prod.splits)
qed

lemma ordinal_decomp:
  assumes "1 \<le> (n::int)"
  obtains a b c e r where
    "a = (n - 1) div 146097" "b = (n - 1) mod 146097 div 36524"
    "c = (n - 1) mod 146097 mod 36524 div 1461"
    "e = (n - 1) mod 146097 mod 36524 mod 1461 div 365"
    "r = (n - 1) mod 146097 mod 36524 mod 1461 mod 365"
    "n - 1 = 146097 * a + 36524 * b + 1461 * c + 365 * e + r"
    "0 \<le> a" "0 \<le> b" "b \<le> 4" "0 \<le> c" "c \<le> 24" "0 \<le> e" "e \<le> 4" "0 \<le> r" "r < 365"
    "b = 4 \<Longrightarrow> c = 0 \<and> e = 0 \<and> r = 0"
    "e = 4 \<Longrightarrow> r = 0 \<and> c \<le> 23"
proof -
  define a where "a = (n - 1) div 146097"
  define r1 where "r1 = (n - 1) mod 146097"
  define b where "b = r1 div 36524"
  define r2 where "r2 = r1 mod 36524"
  define c where "c = r2 div 1461"
  define r3 where "r3 = r2 mod 1461"
  define e where "e = r3 div 365"
  define r where "r = r3 mod 365"
  have e1: "n - 1 = 146097 * a + r1" and b1: "0 \<le> r1" "r1 < 146097"
    by (simp_all add: a_def r1_def)
  have e2: "r1 = 36524 * b + r2" and b2: "0 \<le> r2" "r2 < 36524"
    by (simp_all add: b_def r2_def)
  have e3: "r2 = 1461 * c + r3" and b3: "0 \<le> r3" "r3 < 1461"
    by (simp_all add: c_def r3_def)
  have e4: "r3 = 365 * e + r" and b4: "0 \<le> r" "r < 365"
    by (simp_all add: e_def r_def)
  have a0: "0 \<le> a" using assms by (simp add: a_def pos_imp_zdiv_nonneg_iff)
  have b0: "0 \<le> b" using b1 by (simp add: b_def pos_imp_zdiv_nonneg_iff)
  have c0: "0 \<le> c" using b2 by (simp add: c_def pos_imp_zdiv_nonneg_iff)
  have e0: "0 \<le> e" using b3 by (simp add: e_def pos_imp_zdiv_nonneg_iff)
  have b4': "b \<le> 4" using e2 b1 b2 by linarith
  have c24: "c \<le> 24" using e3 b2 b3 by linarith
  have e4': "e \<le> 4" using e4 b3 b4 by linarith
  have sp1: "b = 4 \<Longrightarrow> c = 0 \<and> e = 0 \<and> r = 0"
    using e2 e3 e4 b1 b2 b3 b4 c0 e0 by linarith
  have sp2: "e = 4 \<Longrightarrow> r = 0 \<and> c \<le> 23"
    using e3 e4 b2 b3 b4 by linarith
  have d2: "b = (n - 1) mod 146097 div 36524" unfolding b_def r1_def ..
  have d3: "c = (n - 1) mod 146097 mod 36524 div 1461" unfolding c_def r2_def r1_def ..
  have d4: "e = (n - 1) mod 146097 mod 36524 mod 1461 div 365"
    unfolding e_def r3_def r2_def r1_def ..
  have d5: "r = (n - 1) mod 146097 mod 36524 mod 1461 mod 365"
    unfolding r_def r3_def r2_def r1_def ..
  have sum: "n - 1 = 146097 * a + 36524 * b + 1461 * c + 365 * e + r"
    using e1 e2 e3 e4 by linarith
  show ?thesis
    using that [OF a_def d2 d3 d4 d5 sum a0 b0 b4' c0 c24 e0 e4' b4 sp1 sp2] by blast
qed

lemma ord2ymd_unfold:
  assumes "a = (n - 1) div 146097" "b = (n - 1) mod 146097 div 36524"
    "c = (n - 1) mod 146097 mod 36524 div 1461"
    "e = (n - 1) mod 146097 mod 36524 mod 1461 div 365"
    "r = (n - 1) mod 146097 mod 36524 mod 1461 mod 365"
  shows "ord2ymd n =
     (if e = 4 \<or> b = 4 then Date (a * 400 + 1 + (b * 100 + c * 4 + e) - 1) 12 31
      else case (let mo = (r + 50) div 32;
                     preceding = DAYS_BEFORE_MONTH ! nat mo
                        + (if mo > 2 \<and> (e = 3 \<and> (c \<noteq> 24 \<or> b = 3)) then 1 else 0)
                 in if preceding > r
                    then (mo - 1,
                          preceding - (DAYS_IN_MONTH ! nat (mo - 1)
                            + (if mo - 1 = 2 \<and> (e = 3 \<and> (c \<noteq> 24 \<or> b = 3)) then 1 else 0)))
                    else (mo, preceding))
           of (mo, preceding) \<Rightarrow> Date (a * 400 + 1 + (b * 100 + c * 4 + e)) mo (r - preceding + 1))"
  unfolding ord2ymd_def Let_def DI_values assms ..

lemma ord2ymd_correct:
  assumes "1 \<le> n"
  shows "toordinal (ord2ymd n) = n
       \<and> 1 \<le> year (ord2ymd n)
       \<and> 1 \<le> month (ord2ymd n) \<and> month (ord2ymd n) \<le> 12
       \<and> 1 \<le> day (ord2ymd n)
       \<and> day (ord2ymd n) \<le> days_in_month (year (ord2ymd n)) (month (ord2ymd n))
       \<and> (n \<le> 3652059 \<longrightarrow> year (ord2ymd n) \<le> 9999)"
proof -
  from assms obtain a b c e r where
    defs: "a = (n - 1) div 146097" "b = (n - 1) mod 146097 div 36524"
      "c = (n - 1) mod 146097 mod 36524 div 1461"
      "e = (n - 1) mod 146097 mod 36524 mod 1461 div 365"
      "r = (n - 1) mod 146097 mod 36524 mod 1461 mod 365"
    and sum: "n - 1 = 146097 * a + 36524 * b + 1461 * c + 365 * e + r"
    and bnd: "0 \<le> a" "0 \<le> b" "b \<le> 4" "0 \<le> c" "c \<le> 24" "0 \<le> e" "e \<le> 4" "0 \<le> r" "r < 365"
    and sp1: "b = 4 \<Longrightarrow> c = 0 \<and> e = 0 \<and> r = 0"
    and sp2: "e = 4 \<Longrightarrow> r = 0 \<and> c \<le> 23"
    by (rule ordinal_decomp) blast
  note u = ord2ymd_unfold [OF defs]
  show ?thesis
  proof (cases "e = 4 \<or> b = 4")
    case True
    then have o: "ord2ymd n = Date (400 * a + 100 * b + 4 * c + e) 12 31"
      using u by (simp add: algebra_simps)
    from True bnd consider (b4) "b = 4" | (e4) "e = 4" "b \<le> 3" by linarith
    then show ?thesis
    proof cases
      case b4
      with sp1 have z: "c = 0" "e = 0" "r = 0" by simp_all
      have y: "400 * a + 100 * b + 4 * c + e = 400 * a + 100 * 3 + 4 * 24 + 3 + 1"
        using b4 z by simp
      have dby: "days_before_year (400 * a + 100 * 3 + 4 * 24 + 3 + 1)
                 = 146097 * a + 36524 * 3 + 1461 * 24 + 365 * 3"
        by (rule days_before_year_decomp) simp_all
      have leap: "is_leap (400 * a + 100 * 3 + 4 * 24 + 3 + 1)"
        by (subst is_leap_decomp) simp_all
      have n: "n = 146097 * a + 146097" using sum b4 z by simp
      have a23: "n \<le> 3652059 \<Longrightarrow> a \<le> 23" using n by linarith
      show ?thesis
        unfolding o toordinal_def ymd2ord_def date.sel y dby
        using leap n a23
        by (simp add: days_before_month_def days_in_month_def DAYS_BEFORE_MONTH_def
              DAYS_IN_MONTH_def bnd)
    next
      case e4
      with sp2 have z: "r = 0" "c \<le> 23" by simp_all
      have y: "400 * a + 100 * b + 4 * c + e = 400 * a + 100 * b + 4 * c + 3 + 1"
        using e4 by simp
      have dby: "days_before_year (400 * a + 100 * b + 4 * c + 3 + 1)
                 = 146097 * a + 36524 * b + 1461 * c + 365 * 3"
        by (rule days_before_year_decomp) (use bnd e4 in simp_all)
      have leap: "is_leap (400 * a + 100 * b + 4 * c + 3 + 1)"
        by (subst is_leap_decomp) (use bnd e4 z in simp_all)
      have n: "n = 146097 * a + 36524 * b + 1461 * c + 1461" using sum e4 z by simp
      have a24: "n \<le> 3652059 \<Longrightarrow> a \<le> 24" using n bnd by linarith
      have yr: "n \<le> 3652059 \<Longrightarrow> 400 * a + 100 * b + 4 * c + 3 + 1 \<le> 9999"
      proof -
        assume le: "n \<le> 3652059"
        show ?thesis
        proof (cases "a \<le> 23")
          case True
          then show ?thesis using e4 z by linarith
        next
          case False
          with a24 [OF le] have "a = 24" by simp
          then show ?thesis using le n e4 z bnd by linarith
        qed
      qed
      have y1: "1 \<le> 400 * a + 100 * b + 4 * c + 3 + 1" using bnd by linarith
      show ?thesis
        unfolding o toordinal_def ymd2ord_def date.sel y dby
        using leap n yr y1
        by (simp add: days_before_month_def days_in_month_def DAYS_BEFORE_MONTH_def
              DAYS_IN_MONTH_def)
    qed
  next
    case False
    with bnd have b3: "b \<le> 3" and e3: "e \<le> 3" by linarith+
    define leap where "leap \<longleftrightarrow> e = 3 \<and> (c \<noteq> 24 \<or> b = 3)"
    define Y where "Y = 400 * a + 100 * b + 4 * c + e + 1"
    obtain mo' preceding' where
      m: "(let mo = (r + 50) div 32;
              preceding = DAYS_BEFORE_MONTH ! nat mo + (if mo > 2 \<and> leap then 1 else 0)
          in if preceding > r
             then (mo - 1,
                   preceding - (DAYS_IN_MONTH ! nat (mo - 1)
                                + (if mo - 1 = 2 \<and> leap then 1 else 0)))
             else (mo, preceding)) = (mo', preceding')"
      and mb: "1 \<le> mo'" "mo' \<le> 12"
      and p: "preceding' = DAYS_BEFORE_MONTH ! nat mo' + (if mo' > 2 \<and> leap then 1 else 0)"
      and pr: "preceding' \<le> r"
      and dm: "r - preceding' + 1 \<le> (if mo' = 2 \<and> leap then 29 else DAYS_IN_MONTH ! nat mo')"
      using month_part [of r leap] bnd by blast
    have o: "ord2ymd n = Date Y mo' (r - preceding' + 1)"
      using u False m unfolding leap_def Y_def by (simp add: algebra_simps)
    have dby: "days_before_year Y = 146097 * a + 36524 * b + 1461 * c + 365 * e"
      unfolding Y_def by (rule days_before_year_decomp) (use bnd b3 e3 in simp_all)
    have lp: "is_leap Y \<longleftrightarrow> leap"
      unfolding Y_def leap_def by (rule is_leap_decomp) (use bnd b3 e3 in simp_all)
    have y1: "1 \<le> Y" unfolding Y_def using bnd by linarith
    have yr: "n \<le> 3652059 \<Longrightarrow> Y \<le> 9999"
    proof -
      assume le: "n \<le> 3652059"
      have a24: "a \<le> 24" using le sum bnd by linarith
      show ?thesis
      proof (cases "a \<le> 23")
        case True
        then show ?thesis unfolding Y_def using bnd b3 e3 by linarith
      next
        case False
        with a24 have "a = 24" by simp
        then show ?thesis unfolding Y_def using le sum bnd b3 e3 by linarith
      qed
    qed
    have ord: "toordinal (Date Y mo' (r - preceding' + 1)) = n"
      unfolding toordinal_def ymd2ord_def date.sel days_before_month_def dby lp
      using p sum by simp
    have dim: "r - preceding' + 1 \<le> days_in_month Y mo'"
      unfolding days_in_month_def lp using dm .
    show ?thesis
      unfolding o using ord dim mb pr y1 yr by simp
  qed
qed

lemma days_before_year_mono: "y \<le> y' \<Longrightarrow> days_before_year y \<le> days_before_year y'"
proof (induction y' rule: int_ge_induct)
  case base
  show ?case by simp
next
  case (step i)
  then show ?case by (simp add: days_before_year_Suc)
qed

lemma days_before_year_10000: "days_before_year 10000 = 3652059"
  by (simp add: days_before_year_def)

lemma days_before_year_1: "days_before_year 1 = 0"
  by (simp add: days_before_year_def)

lemma month_end_le_year:
  assumes "1 \<le> m" "m \<le> 12"
  shows "days_before_month y m + days_in_month y m \<le> (if is_leap y then 366 else 365)"
    and "0 \<le> days_before_month y m"
  using month_cases [OF assms]
  by (auto simp: days_before_month_def days_in_month_def DAYS_BEFORE_MONTH_def DAYS_IN_MONTH_def)

lemma days_before_month_Suc:
  assumes "1 \<le> m" "m < 12"
  shows "days_before_month y (m + 1) = days_before_month y m + days_in_month y m"
proof -
  have "m \<le> 12" using assms by simp
  from month_cases [OF assms(1) this] assms(2) show ?thesis
    by (auto simp: days_before_month_def days_in_month_def DAYS_BEFORE_MONTH_def
          DAYS_IN_MONTH_def)
qed

lemma days_in_month_bounds:
  assumes "1 \<le> m" "m \<le> 12"
  shows "28 \<le> days_in_month y m" and "days_in_month y m \<le> 31"
  using month_cases [OF assms]
  by (auto simp: days_in_month_def DAYS_IN_MONTH_def)

lemma month_end_le_next:
  assumes "1 \<le> m" "m < m'" "m' \<le> 12"
  shows "days_before_month y m + days_in_month y m \<le> days_before_month y m'"
proof -
  have "m + 1 \<le> m'" using assms by simp
  then show ?thesis using \<open>m' \<le> 12\<close>
  proof (induction m' rule: int_ge_induct)
    case base
    then show ?case using assms(1) by (simp add: days_before_month_Suc)
  next
    case (step i)
    have i: "1 \<le> i" "i < 12" "i \<le> 12" using step.hyps step.prems assms(1) by simp_all
    have "days_before_month y m + days_in_month y m \<le> days_before_month y i"
      using step.IH i by simp
    also have "\<dots> \<le> days_before_month y (i + 1)"
      using days_in_month_bounds(1) [OF i(1) i(3), of y]
      by (simp add: days_before_month_Suc [OF i(1) i(2)])
    finally show ?case .
  qed
qed

lemma toordinal_year_bounds:
  assumes "valid_date dt"
  shows "days_before_year (year dt) < toordinal dt"
    and "toordinal dt \<le> days_before_year (year dt + 1)"
proof -
  have m: "1 \<le> month dt" "month dt \<le> 12" and d: "1 \<le> day dt"
    "day dt \<le> days_in_month (year dt) (month dt)"
    using assms by (simp_all add: valid_date_def)
  show "days_before_year (year dt) < toordinal dt"
    using month_end_le_year(2) [OF m, of "year dt"] d
    by (simp add: toordinal_def ymd2ord_def)
  show "toordinal dt \<le> days_before_year (year dt + 1)"
    using month_end_le_year(1) [OF m, of "year dt"] d
    by (simp add: toordinal_def ymd2ord_def days_before_year_Suc split: if_splits)
qed

lemma toordinal_range:
  assumes "valid_date dt"
  shows "1 \<le> toordinal dt" and "toordinal dt \<le> MAXORDINAL"
proof -
  have y: "1 \<le> year dt" "year dt + 1 \<le> 10000" using assms by (simp_all add: valid_date_def MINYEAR_def MAXYEAR_def)
  show "1 \<le> toordinal dt"
    using toordinal_year_bounds(1) [OF assms] days_before_year_mono [OF y(1)]
    by (simp add: days_before_year_1)
  show "toordinal dt \<le> MAXORDINAL"
    using toordinal_year_bounds(2) [OF assms] days_before_year_mono [OF y(2)]
    by (simp add: days_before_year_10000 MAXORDINAL_def)
qed

lemma toordinal_inj:
  assumes v1: "valid_date d1" and v2: "valid_date d2" and eq: "toordinal d1 = toordinal d2"
  shows "d1 = d2"
proof -
  have yle: "year a \<le> year b" if "valid_date a" "valid_date b" "toordinal a = toordinal b" for a b
  proof (rule ccontr)
    assume "\<not> year a \<le> year b"
    then have "year b + 1 \<le> year a" by simp
    from days_before_year_mono [OF this]
    show False
      using toordinal_year_bounds(2) [OF that(2)] toordinal_year_bounds(1) [OF that(1)] that(3)
      by simp
  qed
  have y: "year d1 = year d2" using yle [OF v1 v2 eq] yle [OF v2 v1 eq [symmetric]] by simp
  have mle: "month a \<le> month b"
    if "valid_date a" "valid_date b" "toordinal a = toordinal b" "year a = year b" for a b
  proof (rule ccontr)
    assume "\<not> month a \<le> month b"
    then have lt: "month b < month a" by simp
    have "days_before_month (year b) (month b) + days_in_month (year b) (month b)
            \<le> days_before_month (year b) (month a)"
      by (rule month_end_le_next) (use that lt in \<open>simp_all add: valid_date_def\<close>)
    then show False
      using that by (simp add: toordinal_def ymd2ord_def valid_date_def)
  qed
  have m: "month d1 = month d2"
    using mle [OF v1 v2 eq y] mle [OF v2 v1 eq [symmetric] y [symmetric]] by simp
  have d: "day d1 = day d2" using eq y m by (simp add: toordinal_def ymd2ord_def)
  show ?thesis using y m d by (simp add: date.expand)
qed

lemma ord2ymd_valid:
  assumes "0 < n" "n \<le> MAXORDINAL"
  shows "valid_date (ord2ymd n)" and "toordinal (ord2ymd n) = n"
  using ord2ymd_correct [of n] assms
  by (simp_all add: valid_date_def MINYEAR_def MAXYEAR_def MAXORDINAL_def)

lemma ord2ymd_toordinal:
  assumes "valid_date dt"
  shows "ord2ymd (toordinal dt) = dt"
proof -
  have r: "0 < toordinal dt" "toordinal dt \<le> MAXORDINAL"
    using toordinal_range [OF assms] by simp_all
  show ?thesis
    by (rule toordinal_inj [OF ord2ymd_valid(1) [OF r] assms ord2ymd_valid(2) [OF r]])
qed

lemma date_add_days_Inr:
  assumes "date_add_days dt k = Inr dt'"
  shows "toordinal dt' = toordinal dt + k" and "valid_date dt'"
    and "weekday dt' = (weekday dt + k) mod 7"
proof -
  have r: "0 < toordinal dt + k" "toordinal dt + k \<le> MAXORDINAL"
    and e: "dt' = ord2ymd (toordinal dt + k)"
    using assms by (auto simp: date_add_days_def Let_def split: if_splits)
  show o: "toordinal dt' = toordinal dt + k" and "valid_date dt'"
    unfolding e using ord2ymd_valid [OF r] by simp_all
  show "weekday dt' = (weekday dt + k) mod 7"
    unfolding weekday_def o by (simp add: mod_simps algebra_simps)
qed

lemma date_add_days_ok:
  assumes "valid_date dt" "0 \<le> k" "toordinal dt + k \<le> MAXORDINAL"
  shows "date_add_days dt k = Inr (ord2ymd (toordinal dt + k))"
proof -
  have "1 \<le> toordinal dt" using toordinal_range(1) [OF assms(1)] .
  moreover have "k \<le> 999999999" using assms(3) calculation by (simp add: MAXORDINAL_def)
  ultimately show ?thesis using assms by (simp add: date_add_days_def Let_def)
qed

lemma date_add_days_same_month:
  assumes "valid_date (Date y m d)" "0 \<le> k" "d + k \<le> days_in_month y m"
  shows "date_add_days (Date y m d) k = Inr (Date y m (d + k))"
proof -
  have v: "valid_date (Date y m (d + k))" using assms by (simp add: valid_date_def)
  have o: "toordinal (Date y m d) + k = toordinal (Date y m (d + k))"
    by (simp add: toordinal_def ymd2ord_def)
  have "date_add_days (Date y m d) k = Inr (ord2ymd (toordinal (Date y m d) + k))"
    by (rule date_add_days_ok) (use assms toordinal_range(2) [OF v] o in simp_all)
  then show ?thesis unfolding o ord2ymd_toordinal [OF v] .
qed

section \<open>Weekdays within a month\<close>

text \<open>
  Within a month the ordinal grows with the day, so the weekday advances by one per
  day, and the days falling on a given weekday form a progression of step 7.
\<close>

lemma toordinal_in_month: "toordinal (Date y m d) = toordinal (Date y m 1) + d - 1"
  by (simp add: toordinal_def ymd2ord_def)

lemma weekday_in_month: "weekday (Date y m d) = (weekday (Date y m 1) + (d - 1)) mod 7"
proof -
  have "weekday (Date y m d) = ((toordinal (Date y m 1) + 6) + (d - 1)) mod 7"
    by (simp add: weekday_def toordinal_in_month [of y m d] algebra_simps)
  also have "\<dots> = ((toordinal (Date y m 1) + 6) mod 7 + (d - 1)) mod 7"
    by (simp only: mod_add_left_eq)
  finally show ?thesis by (simp only: weekday_def)
qed

lemma upto_7: "[a + 1..a + 7] = [a + 1, a + 2, a + 3, a + 4, a + 5, a + 6, a + (7::int)]"
  by (simp add: upto_rec1)

lemma mod_7_shift:
  assumes "(a - c) mod 7 = (0::int)"
  shows "(a + i - c) mod 7 = i mod 7"
proof -
  have "(a + i - c) mod 7 = ((a - c) + i) mod 7" by (simp add: algebra_simps)
  also have "\<dots> = ((a - c) mod 7 + i) mod 7" by (simp only: mod_add_left_eq)
  finally show ?thesis by (simp add: assms)
qed

lemma count_window:
  assumes "(a - c) mod 7 = (0::int)"
  shows "length (filter (\<lambda>d. (d - c) mod 7 = 0) [a + 1..a + 7]) = 1"
  unfolding upto_7 by (simp add: mod_7_shift [OF assms])

lemma count_first:
  assumes "1 \<le> c" "c \<le> (7::int)"
  shows "length (filter (\<lambda>d. (d - c) mod 7 = 0) [1..c]) = 1"
proof -
  have none: "filter (\<lambda>d. (d - c) mod 7 = 0) [1..c - 1] = []"
  proof (rule filter_False, rule ballI)
    fix d assume "d \<in> set [1..c - 1]"
    then have "1 \<le> d" "d \<le> c - 1" by simp_all
    with assms have r: "0 \<le> d - c + 7" "d - c + 7 < 7" "1 \<le> d - c + 7" by simp_all
    have "(d - c) mod 7 = d - c + 7"
      by (rule mod_decomp [where q = "- 1", OF r(1,2)]) simp
    then show "(d - c) mod 7 \<noteq> 0" using r(3) by simp
  qed
  have "[1..c] = [1..c - 1] @ [c]" using assms by (simp add: upto_rec2)
  then show ?thesis using none by simp
qed

lemma count_progression:
  assumes "1 \<le> c" "c \<le> (7::int)"
  shows "length (filter (\<lambda>d. (d - c) mod 7 = 0) [1..c + 7 * int j]) = Suc j"
proof (induction j)
  case 0
  show ?case using count_first [OF assms] by simp
next
  case (Suc j)
  have le: "1 \<le> c + 7 * int j + 1" using assms by simp
  have split: "[1..c + 7 * int (Suc j)] = [1..c + 7 * int j] @ [c + 7 * int j + 1..c + 7 * int j + 7]"
    using upto_split2 [of 1 "c + 7 * int j" "c + 7 * int j + 7"] assms
    by (simp add: algebra_simps)
  show ?case
    unfolding split filter_append length_append Suc.IH
    by (subst count_window) simp_all
qed

lemma first_of_month:
  assumes "1 \<le> y" "y \<le> 9999" "1 \<le> m" "m \<le> 12"
  shows "new_date y m 1 = Inr (Date y m 1)" and "valid_date (Date y m 1)"
  using assms days_in_month_bounds(1) [OF assms(3,4), of y]
  by (simp_all add: new_date_def valid_date_def MINYEAR_def MAXYEAR_def)

lemma offset_bounds: "0 \<le> (wd - f) mod (7::int)" "(wd - f) mod 7 \<le> (6::int)"
  by simp_all

lemma offset_weekday:
  assumes "0 \<le> wd" "wd \<le> (6::int)"
  shows "(f + ((wd - f) mod 7 + (n - 1) * 7)) mod 7 = wd"
proof -
  have "(f + ((wd - f) mod 7 + (n - 1) * 7)) mod 7 = ((f + (wd - f) mod 7) + (n - 1) * 7) mod 7"
    by (simp only: add.assoc)
  also have "\<dots> = (f + (wd - f) mod 7) mod 7" by (rule mod_mult_self1)
  also have "\<dots> = (f + (wd - f)) mod 7" by (simp only: mod_add_right_eq)
  also have "\<dots> = wd" using assms by simp
  finally show ?thesis .
qed

lemma weekday_progression:
  assumes "0 \<le> wd" "wd \<le> (6::int)"
  shows "((f + (d - 1)) mod 7 = wd) = ((d - (1 + (wd - f) mod 7)) mod 7 = 0)"
proof -
  have wd: "wd mod 7 = wd" using assms by simp
  have "((f + (d - 1)) mod 7 = wd) = ((f + (d - 1)) mod 7 = wd mod 7)" by (simp only: wd)
  also have "\<dots> = (7 dvd (f + (d - 1)) - wd)" by (rule mod_eq_dvd_iff)
  also have "(f + (d - 1)) - wd = (d - 1) - (wd - f)" by simp
  also have "(7 dvd (d - 1) - (wd - f)) = ((d - 1) mod 7 = (wd - f) mod 7)"
    by (rule mod_eq_dvd_iff [symmetric])
  also have "\<dots> = ((d - 1) mod 7 = (wd - f) mod 7 mod 7)" by simp
  also have "\<dots> = (7 dvd (d - 1) - (wd - f) mod 7)" by (rule mod_eq_dvd_iff)
  also have "(d - 1) - (wd - f) mod 7 = d - (1 + (wd - f) mod 7)" by simp
  also have "(7 dvd d - (1 + (wd - f) mod 7)) = ((d - (1 + (wd - f) mod 7)) mod 7 = 0)"
    by (simp only: mod_eq_0_iff_dvd)
  finally show ?thesis .
qed

lemma weekday_count_progression:
  assumes "0 \<le> wd" "wd \<le> 6" "1 \<le> n"
  shows "weekday_count y m wd (1 + (wd - weekday (Date y m 1)) mod 7 + (n - 1) * 7) = nat n"
proof -
  define f where "f = weekday (Date y m 1)"
  define c where "c = 1 + (wd - f) mod 7"
  have c: "1 \<le> c" "c \<le> 7" using offset_bounds [of wd f] by (simp_all add: c_def)
  have P: "(weekday (Date y m d) = wd) = ((d - c) mod 7 = 0)" for d
  proof -
    have "(weekday (Date y m d) = wd) = ((f + (d - 1)) mod 7 = wd)"
      by (simp only: weekday_in_month [of y m d] f_def)
    also have "\<dots> = ((d - c) mod 7 = 0)"
      unfolding c_def by (rule weekday_progression [OF assms(1,2)])
    finally show ?thesis .
  qed
  have n: "1 + (wd - f) mod 7 + (n - 1) * 7 = c + 7 * int (nat (n - 1))"
    using assms(3) by (simp add: c_def)
  have "weekday_count y m wd (1 + (wd - f) mod 7 + (n - 1) * 7) = Suc (nat (n - 1))"
    unfolding weekday_count_def P n by (rule count_progression [OF c])
  then show ?thesis using assms(3) by (simp add: f_def)
qed

section \<open>Lunar dates of a Gregorian year\<close>

text \<open>
  C2. For every target year and every lunar (month, day), and whatever the conversion
  library does, \<open>lunar_to_solar_for_gregorian_year\<close> returns a list (it cannot raise):
  the conversions of the lunar years \<open>gy\<close> and \<open>gy - 1\<close>, in this order, a failed
  conversion contributing nothing, filtered to the dates whose year is \<open>gy\<close>. The list
  has at most two elements and each of them lies in the year \<open>gy\<close>.
\<close>

theorem lunar_to_solar_for_gregorian_year_spec:
  "lunar_to_solar_for_gregorian_year lib gy lm ld =
     filter (\<lambda>dt. year dt = gy)
       (concat (map (\<lambda>ly. case lunar_to_date lib ly lm ld of None \<Rightarrow> [] | Some dt \<Rightarrow> [dt])
                    [gy, gy - 1]))
   \<and> length (lunar_to_solar_for_gregorian_year lib gy lm ld) \<le> 2
   \<and> (\<forall>dt \<in> set (lunar_to_solar_for_gregorian_year lib gy lm ld). year dt = gy)"
  by (auto simp: lunar_to_solar_for_gregorian_year_def split: option.splits)

theorem lunar_to_solar_for_gregorian_year_spec_witness:
  "lunar_to_solar_for_gregorian_year ascii_lib 2024 11 20 = [Date 2024 12 20, Date 2024 1 1]
   \<and> Date 2024 12 20 \<in> set (lunar_to_solar_for_gregorian_year ascii_lib 2024 11 20)
   \<and> year (Date 2024 12 20) = 2024"
  using lunar_to_solar_for_gregorian_year_spec [of ascii_lib 2024 11 20]
  by (simp add: ascii_lib_def lunar_excerpt_def)

section \<open>The n-th weekday of a month\<close>

text \<open>
  C3. For every year in 1..9999, month in 1..12, weekday in 0..6 and \<open>n\<close> in 1..4 (for
  which the \<open>n\<close>-th occurrence always exists, every month having 28 days or more),
  \<open>get_nth_weekday\<close> returns a date of that month: day
  \<open>1 + offset + (n - 1) * 7\<close>, where \<open>offset\<close>, between 0 and 6, is the distance from
  the weekday of the 1st forward to the requested weekday. That date falls on the
  requested weekday, and it is the \<open>n\<close>-th such date of the month counting from the 1st.
\<close>

theorem get_nth_weekday_in_month:
  assumes "1 \<le> y" "y \<le> 9999" "1 \<le> m" "m \<le> 12" "0 \<le> wd" "wd \<le> 6" "1 \<le> n" "n \<le> 4"
  shows "\<exists>offset d.
           offset = (wd - weekday (Date y m 1)) mod 7 \<and> 0 \<le> offset \<and> offset \<le> 6
         \<and> d = 1 + offset + (n - 1) * 7
         \<and> get_nth_weekday y m wd n = Inr (Date y m d)
         \<and> 1 \<le> d \<and> d \<le> days_in_month y m
         \<and> weekday (Date y m d) = wd
         \<and> weekday_count y m wd d = nat n"
proof -
  define offset where "offset = (wd - weekday (Date y m 1)) mod 7"
  define d where "d = 1 + offset + (n - 1) * 7"
  have ob: "0 \<le> offset" "offset \<le> 6" unfolding offset_def by simp_all
  have d1: "1 \<le> d" and d28: "d \<le> 28" using ob assms(7,8) by (simp_all add: d_def)
  have dim: "d \<le> days_in_month y m"
    using d28 days_in_month_bounds(1) [OF assms(3,4), of y] by simp
  have k: "0 \<le> offset + (n - 1) * 7" "1 + (offset + (n - 1) * 7) \<le> days_in_month y m"
    using ob assms(7) dim by (simp_all add: d_def)
  have "get_nth_weekday y m wd n = date_add_days (Date y m 1) (offset + (n - 1) * 7)"
    by (simp add: get_nth_weekday_def first_of_month(1) [OF assms(1-4)] offset_def Let_def)
  also have "\<dots> = Inr (Date y m (1 + (offset + (n - 1) * 7)))"
    by (rule date_add_days_same_month [OF first_of_month(2) [OF assms(1-4)] k])
  finally have res: "get_nth_weekday y m wd n = Inr (Date y m d)"
    by (simp add: d_def add.assoc)
  have dm: "d - 1 = offset + (n - 1) * 7" by (simp add: d_def)
  have wk: "weekday (Date y m d) = wd"
    unfolding weekday_in_month [of y m d] dm offset_def
    by (rule offset_weekday [OF assms(5,6)])
  have cnt: "weekday_count y m wd d = nat n"
    unfolding d_def offset_def by (rule weekday_count_progression [OF assms(5,6,7)])
  show ?thesis using ob d1 dim res wk cnt offset_def d_def by blast
qed

theorem get_nth_weekday_in_month_witness:
  "get_nth_weekday 2024 5 6 2 = Inr (Date 2024 5 12)
   \<and> weekday (Date 2024 5 12) = 6 \<and> weekday_count 2024 5 6 12 = 2"
proof -
  have w1: "weekday (Date 2024 5 1) = 2" by code_simp
  from get_nth_weekday_in_month [of 2024 5 6 2]
  show ?thesis unfolding w1 by simp
qed

text \<open>
  C10. For every year in 1..9999, month in 1..12, weekday in 0..6 and every \<open>n \<ge> 1\<close>
  such that the computed day number does not exceed that of 9999-12-31,
  \<open>get_nth_weekday\<close> returns a date (it does not raise), also when the month has no
  \<open>n\<close>-th such weekday. The date returned lies \<open>offset + (n - 1) * 7\<close> days after the
  1st, it falls on the requested weekday, and it lies in the month asked for exactly
  when that month has an \<open>n\<close>-th such weekday; otherwise it falls in a later month.
\<close>

theorem get_nth_weekday_total:
  assumes "1 \<le> y" "y \<le> 9999" "1 \<le> m" "m \<le> 12" "0 \<le> wd" "wd \<le> 6" "1 \<le> n"
    and range: "toordinal (Date y m 1) + (wd - weekday (Date y m 1)) mod 7 + (n - 1) * 7 \<le> MAXORDINAL"
  shows "\<exists>dt. get_nth_weekday y m wd n = Inr dt \<and> valid_date dt \<and> weekday dt = wd
            \<and> toordinal dt = toordinal (Date y m 1) + (wd - weekday (Date y m 1)) mod 7 + (n - 1) * 7
            \<and> ((year dt = y \<and> month dt = m)
                 \<longleftrightarrow> 1 + (wd - weekday (Date y m 1)) mod 7 + (n - 1) * 7 \<le> days_in_month y m)"
proof -
  define k where "k = (wd - weekday (Date y m 1)) mod 7 + (n - 1) * 7"
  have k0: "0 \<le> k" using assms(7) by (simp add: k_def)
  have v: "valid_date (Date y m 1)" by (rule first_of_month(2) [OF assms(1-4)])
  have "get_nth_weekday y m wd n = date_add_days (Date y m 1) k"
    by (simp add: get_nth_weekday_def first_of_month(1) [OF assms(1-4)] k_def Let_def)
  also have "\<dots> = Inr (ord2ymd (toordinal (Date y m 1) + k))"
    by (rule date_add_days_ok [OF v k0]) (use range in \<open>simp add: k_def\<close>)
  finally have res: "get_nth_weekday y m wd n = Inr (ord2ymd (toordinal (Date y m 1) + k))" .
  define dt where "dt = ord2ymd (toordinal (Date y m 1) + k)"
  have add: "date_add_days (Date y m 1) k = Inr dt"
    using res \<open>get_nth_weekday y m wd n = date_add_days (Date y m 1) k\<close> by (simp add: dt_def)
  note facts = date_add_days_Inr [OF add]
  have wk: "weekday dt = wd"
    unfolding facts(3) k_def by (rule offset_weekday [OF assms(5,6)])
  have month: "(year dt = y \<and> month dt = m) \<longleftrightarrow> 1 + k \<le> days_in_month y m"
  proof
    assume ym: "year dt = y \<and> month dt = m"
    have "toordinal dt = toordinal (Date y m 1) + day dt - 1"
      using ym toordinal_in_month [of y m "day dt"] by (cases dt) simp
    then have "day dt = 1 + k" using facts(1) by simp
    then show "1 + k \<le> days_in_month y m"
      using facts(2) ym by (simp add: valid_date_def)
  next
    assume "1 + k \<le> days_in_month y m"
    from date_add_days_same_month [OF v k0 this] add show "year dt = y \<and> month dt = m"
      by simp
  qed
  have "\<exists>dt. get_nth_weekday y m wd n = Inr dt \<and> valid_date dt \<and> weekday dt = wd
            \<and> toordinal dt = toordinal (Date y m 1) + k
            \<and> ((year dt = y \<and> month dt = m) \<longleftrightarrow> 1 + k \<le> days_in_month y m)"
    using res facts(1,2) wk month unfolding dt_def [symmetric] by blast
  then show ?thesis by (simp only: k_def add.assoc)
qed

theorem get_nth_weekday_total_witness:
  "get_nth_weekday 2024 5 6 5 = Inr (Date 2024 6 2) \<and> weekday (Date 2024 6 2) = 6
   \<and> toordinal (Date 2024 6 2) = toordinal (Date 2024 5 1) + 4 + 4 * 7"
proof -
  have w1: "weekday (Date 2024 5 1) = 2" by code_simp
  have o1: "toordinal (Date 2024 5 1) = 739007" by code_simp
  have e: "get_nth_weekday 2024 5 6 5 = Inr (Date 2024 6 2)" by code_simp
  from get_nth_weekday_total [of 2024 5 6 5]
  show ?thesis unfolding w1 o1 e by (simp add: MAXORDINAL_def)
qed

end
